theory Spec2Isabelle
  imports Main
begin

section \<open>The question router of \<open>app/graphs/simple_agent.py\<close>\<close>

text \<open>
  The agent graph of \<open>17_Deploying_Open_Source_Endpoints\<close> classifies the newest user
  question by keyword, calls at most one tool, and asks a chat model for the reply.
  The embedding follows \<open>simple_agent.py\<close> function by function. The tools and the chat
  model are external collaborators: they are parameters of the model, each a function
  that returns a value or raises. The \<open>print\<close> calls of the source write diagnostics
  only and are left out.
\<close>

subsection \<open>Strings\<close>

text \<open>
  \<open>str.lower()\<close>: the letters \<open>A\<close> to \<open>Z\<close> go to \<open>a\<close> to \<open>z\<close>. Every keyword of
  the router is ASCII, so what Python does with the case of other letters cannot make
  or break a match; the model leaves them alone.
\<close>

definition ascii_uppercase :: string where
  "ascii_uppercase = ''ABCDEFGHIJKLMNOPQRSTUVWXYZ''"

definition ascii_lowercase :: string where
  "ascii_lowercase = ''abcdefghijklmnopqrstuvwxyz''"

definition lower_char :: "char \<Rightarrow> char" where
  "lower_char c =
     (case map_of (zip ascii_uppercase ascii_lowercase) c of None \<Rightarrow> c | Some d \<Rightarrow> d)"

definition lower :: "string \<Rightarrow> string" where
  "lower s = map lower_char s"

text \<open>\<open>s.startswith(k)\<close> and the substring test \<open>k in s\<close>.\<close>

fun startswith :: "string \<Rightarrow> string \<Rightarrow> bool" where
  "startswith s [] = True"
| "startswith [] (k # ks) = False"
| "startswith (c # s) (k # ks) = (c = k \<and> startswith s ks)"

fun str_in :: "string \<Rightarrow> string \<Rightarrow> bool" where
  "str_in k [] = (k = [])"
| "str_in k (c # s) = (startswith (c # s) k \<or> str_in k s)"

text \<open>\<open>sep.join(parts)\<close>.\<close>

fun join :: "string \<Rightarrow> string list \<Rightarrow> string" where
  "join sep [] = []"
| "join sep [p] = p"
| "join sep (p # q # ps) = p @ sep @ join sep (q # ps)"

subsection \<open>Messages and the agent state (\<open>app/state.py\<close>)\<close>

text \<open>The three message classes of \<open>langchain_core.messages\<close> the router uses.\<close>

datatype message =
    HumanMessage (content: string)
  | AIMessage (content: string)
  | SystemMessage (content: string)

fun is_human :: "message \<Rightarrow> bool" where
  "is_human (HumanMessage c) = True"
| "is_human m = False"

text \<open>
  \<open>AgentState\<close> is a \<open>TypedDict\<close>: a key can be missing, and the two optional keys can
  hold \<open>None\<close>. \<open>messages\<close> is a reducer channel, which always has a list.
\<close>

datatype 'a key = Missing | Present 'a

record agent_state =
  messages :: "message list"
  tool_choice :: "string option key"
  question :: "string option key"

text \<open>\<open>state.get(key, default)\<close>.\<close>

fun state_get :: "'a key \<Rightarrow> 'a \<Rightarrow> 'a" where
  "state_get Missing d = d"
| "state_get (Present v) d = v"

text \<open>Truthiness of an \<open>Optional[str]\<close>: \<open>None\<close> and the empty string are falsy.\<close>

fun truthy :: "string option \<Rightarrow> bool" where
  "truthy None = False"
| "truthy (Some s) = (s \<noteq> [])"

text \<open>
  What a node returns: a partial state. \<open>analyze_question\<close> returns the two routing
  keys, every other node a list of new messages.
\<close>

datatype update =
    Decision string string
  | Messages "message list"

text \<open>
  Merging a node's return value into the state. \<open>messages\<close> is annotated with
  \<open>add_messages\<close>, which appends new messages to the list (the messages the router
  makes are new objects without an id, so none replaces an older one); the other keys
  are overwritten.
\<close>

fun apply_update :: "agent_state \<Rightarrow> update \<Rightarrow> agent_state" where
  "apply_update st (Decision t q) =
     st\<lparr>tool_choice := Present (Some t), question := Present (Some q)\<rparr>"
| "apply_update st (Messages ms) = st\<lparr>messages := messages st @ ms\<rparr>"

subsection \<open>Exceptions and collaborators\<close>

datatype exn =
    Exception string
  | UnboundLocalError string
  | KeyError string
  | GraphRecursionError

text \<open>\<open>str(e)\<close>.\<close>

fun str_exn :: "exn \<Rightarrow> string" where
  "str_exn (Exception m) = m"
| "str_exn (UnboundLocalError v) =
     ''cannot access local variable '' @ v @ '' where it is not associated with a value''"
| "str_exn (KeyError k) = k"
| "str_exn GraphRecursionError = ''Recursion limit reached''"

text \<open>A search hit of the web tool is a dict; \<open>d.get(k, default)\<close> reads it.\<close>

type_synonym hit = "(string \<times> string) list"

definition dict_get :: "hit \<Rightarrow> string \<Rightarrow> string \<Rightarrow> string" where
  "dict_get d k dflt = (case map_of d k of None \<Rightarrow> dflt | Some v \<Rightarrow> v)"

text \<open>
  The collaborators, each called with the query (or the message list) and either
  returning or raising: \<open>retrieve_information.invoke\<close> of \<open>app.rag\<close>,
  \<open>TavilySearchResults(max_results=3).invoke\<close>, \<open>ArxivQueryRun().invoke\<close>, and
  \<open>get_chat_model().invoke\<close>.
\<close>

record collaborators =
  retrieve_information :: "string option \<Rightarrow> exn + string"
  tavily_tool :: "string option \<Rightarrow> exn + hit list"
  arxiv_tool :: "string option \<Rightarrow> exn + string"
  chat_model :: "message list \<Rightarrow> exn + message"

text \<open>The calls a node makes, in order.\<close>

datatype call =
    CallRag "string option"
  | CallWebSearch "string option"
  | CallArxiv "string option"
  | CallModel "message list"

fun is_tool_call :: "call \<Rightarrow> bool" where
  "is_tool_call (CallModel ms) = False"
| "is_tool_call c = True"

subsection \<open>Keyword tests\<close>

definition rag_keywords :: "string list" where
  "rag_keywords =
     [''student loan'', ''financial aid'', ''pell grant'', ''fafsa'', ''tuition'',
      ''scholarship'', ''education loan'', ''federal aid'', ''college funding'',
      ''direct loan'', ''subsidized'', ''unsubsidized'', ''plus loan'',
      ''loan forgiveness'', ''repayment'', ''interest rate'']"

definition web_keywords :: "string list" where
  "web_keywords =
     [''current'', ''latest'', ''recent'', ''today'', ''news'', ''update'',
      ''2024'', ''2025'', ''now'', ''this year'']"

definition arxiv_keywords :: "string list" where
  "arxiv_keywords =
     [''research'', ''paper'', ''study'', ''academic'', ''publication'',
      ''machine learning'', ''AI'', ''artificial intelligence'', ''neural network'',
      ''algorithm'', ''computer science'', ''mathematics'']"

text \<open>\<open>any(keyword in question_lower for keyword in keywords)\<close>.\<close>

definition should_use_rag :: "string \<Rightarrow> bool" where
  "should_use_rag q = (let question_lower = lower q in
     list_ex (\<lambda>keyword. str_in keyword question_lower) rag_keywords)"

definition should_use_web_search :: "string \<Rightarrow> bool" where
  "should_use_web_search q = (let question_lower = lower q in
     list_ex (\<lambda>keyword. str_in keyword question_lower) web_keywords)"

definition should_use_arxiv :: "string \<Rightarrow> bool" where
  "should_use_arxiv q = (let question_lower = lower q in
     list_ex (\<lambda>keyword. str_in keyword question_lower) arxiv_keywords)"

subsection \<open>The nodes\<close>

text \<open>
  The loop \<open>for msg in reversed(messages): if isinstance(msg, HumanMessage): ...; break\<close>
  run on the reversed list: the content of the first human message, if any.
\<close>

fun first_human :: "message list \<Rightarrow> string option" where
  "first_human [] = None"
| "first_human (m # ms) = (if is_human m then Some (content m) else first_human ms)"

definition analyze_question :: "agent_state \<Rightarrow> update" where
  "analyze_question st =
     (let last_human_message = first_human (rev (messages st)) in
      if \<not> truthy last_human_message then Decision ''direct'' ''''
      else
        (case last_human_message of
           None \<Rightarrow> Decision ''direct'' ''''
         | Some q \<Rightarrow>
             (let tools_to_use =
                    (if should_use_rag q then [''rag'']
                     else if should_use_web_search q then [''web_search'']
                     else if should_use_arxiv q then [''arxiv'']
                     else [])
              in (case tools_to_use of
                    [] \<Rightarrow> Decision ''direct'' q
                  | t # ts \<Rightarrow> Decision t q))))"

text \<open>
  The query of a tool node: the \<open>question\<close> key, or when that is missing or falsy the
  newest human message, when there is one.
\<close>

definition tool_query :: "agent_state \<Rightarrow> string option" where
  "tool_query st =
     (let q = state_get (question st) (Some '''') in
      if \<not> truthy q then
        (case first_human (rev (messages st)) of None \<Rightarrow> q | Some c \<Rightarrow> Some c)
      else q)"

text \<open>
  Reading a local variable: one that no statement has assigned yet raises
  \<open>UnboundLocalError\<close>.
\<close>

fun read_local :: "string \<Rightarrow> 'a option \<Rightarrow> exn + 'a" where
  "read_local name None = Inl (UnboundLocalError name)"
| "read_local name (Some v) = Inr v"

definition use_rag_tool :: "collaborators \<Rightarrow> agent_state \<Rightarrow> call list \<times> (exn + update)" where
  "use_rag_tool env st =
     (let q = tool_query st in
      ([CallRag q],
       case retrieve_information env q of
         Inr rag_result \<Rightarrow>
           (let tool_message = SystemMessage (''RAG Tool Result: '' @ rag_result)
            in Inr (Messages [tool_message]))
       | Inl e \<Rightarrow>
           (let error_message = SystemMessage (''RAG tool error: '' @ str_exn e)
            in Inr (Messages [error_message]))))"

definition format_hit :: "hit \<Rightarrow> string" where
  "format_hit result =
     ''- '' @ dict_get result ''title'' ''No title'' @ '': ''
       @ dict_get result ''content'' ''No content''"

definition use_web_search_tool ::
  "collaborators \<Rightarrow> agent_state \<Rightarrow> call list \<times> (exn + update)" where
  "use_web_search_tool env st =
     (let q = tool_query st in
      ([CallWebSearch q],
       case tavily_tool env q of
         Inr search_result \<Rightarrow>
           (let formatted_results = join [CHR 0x0A] (map format_hit search_result);
                tool_message = SystemMessage (''Web Search Results: '' @ formatted_results)
            in Inr (Messages [tool_message]))
       | Inl e \<Rightarrow>
           (let error_message = SystemMessage (''Web search error: '' @ str_exn e)
            in Inr (Messages [error_message]))))"

text \<open>
  In \<open>use_arxiv_tool\<close> the handler builds \<open>error_message\<close> and then returns
  \<open>tool_message\<close>, a local that is assigned only at the end of the \<open>try\<close> block, after
  the call that raised.
\<close>

definition use_arxiv_tool :: "collaborators \<Rightarrow> agent_state \<Rightarrow> call list \<times> (exn + update)" where
  "use_arxiv_tool env st =
     (let q = tool_query st in
      ([CallArxiv q],
       case arxiv_tool env q of
         Inr arxiv_result \<Rightarrow>
           (let tool_message = SystemMessage (''ArXiv Search Results: '' @ arxiv_result)
            in Inr (Messages [tool_message]))
       | Inl e \<Rightarrow>
           (let error_message = SystemMessage (''ArXiv search error: '' @ str_exn e);
                tool_message = None
            in (case read_local ''tool_message'' tool_message of
                  Inl e' \<Rightarrow> Inl e'
                | Inr m \<Rightarrow> Inr (Messages [m])))))"

definition system_prompt :: message where
  "system_prompt = SystemMessage
     (''You are a helpful assistant. If tool results are provided in the conversation, ''
      @ ''use them to answer the user's question. If no tool results are available, ''
      @ ''answer based on your knowledge.'')"

definition generate_response ::
  "collaborators \<Rightarrow> agent_state \<Rightarrow> call list \<times> (exn + update)" where
  "generate_response env st =
     (let model_messages = [system_prompt] @ messages st in
      ([CallModel model_messages],
       case chat_model env model_messages of
         Inl e \<Rightarrow> Inl e
       | Inr response \<Rightarrow> Inr (Messages [response])))"

definition route_to_tool :: "agent_state \<Rightarrow> string" where
  "route_to_tool st =
     (let choice = state_get (tool_choice st) (Some ''direct'') in
      if choice = Some ''rag'' then ''use_rag''
      else if choice = Some ''web_search'' then ''use_web_search''
      else if choice = Some ''arxiv'' then ''use_arxiv''
      else ''generate_response'')"

subsection \<open>The graph\<close>

text \<open>
  A \<open>StateGraph\<close> as \<open>build_graph\<close> fills it: named nodes, an entry point, conditional
  edges (a routing function and its label-to-node table) and plain edges.
\<close>

type_synonym node_fn = "collaborators \<Rightarrow> agent_state \<Rightarrow> call list \<times> (exn + update)"

record state_graph =
  nodes :: "(string \<times> node_fn) list"
  entry_point :: string
  conditional_edges :: "(string \<times> (agent_state \<Rightarrow> string) \<times> (string \<times> string) list) list"
  edges :: "(string \<times> string) list"

definition END :: string where
  "END = ''__end__''"

definition build_graph :: state_graph where
  "build_graph =
     \<lparr>nodes =
        [(''analyze_question'', \<lambda>env st. ([], Inr (analyze_question st))),
         (''use_rag'', use_rag_tool),
         (''use_web_search'', use_web_search_tool),
         (''use_arxiv'', use_arxiv_tool),
         (''generate_response'', generate_response)],
      entry_point = ''analyze_question'',
      conditional_edges =
        [(''analyze_question'', route_to_tool,
          [(''use_rag'', ''use_rag''),
           (''use_web_search'', ''use_web_search''),
           (''use_arxiv'', ''use_arxiv''),
           (''generate_response'', ''generate_response'')])],
      edges =
        [(''use_rag'', ''generate_response''),
         (''use_web_search'', ''generate_response''),
         (''use_arxiv'', ''generate_response''),
         (''generate_response'', END)]\<rparr>"

text \<open>
  The node that runs after \<open>n\<close>: through the conditional edge of \<open>n\<close> when it has one
  (a label outside the table is a \<open>KeyError\<close>), through its plain edge otherwise.
\<close>

definition successor :: "state_graph \<Rightarrow> string \<Rightarrow> agent_state \<Rightarrow> exn + string" where
  "successor g n st =
     (case map_of (conditional_edges g) n of
        Some (route, path_map) \<Rightarrow>
          (case map_of path_map (route st) of
             None \<Rightarrow> Inl (KeyError (route st))
           | Some n' \<Rightarrow> Inr n')
      | None \<Rightarrow>
          (case map_of (edges g) n of
             None \<Rightarrow> Inl (KeyError n)
           | Some n' \<Rightarrow> Inr n'))"

text \<open>
  A run of the compiled graph from node \<open>n\<close>: the nodes entered, the collaborator calls
  made, and the final state or the exception that ended the run. An exception that
  leaves a node ends the run. \<open>limit\<close> is LangGraph's recursion limit: a run that
  would take more steps raises \<open>GraphRecursionError\<close>.
\<close>

record run_result =
  trace :: "string list"
  calls :: "call list"
  outcome :: "exn + agent_state"

fun run_from :: "state_graph \<Rightarrow> collaborators \<Rightarrow> nat \<Rightarrow> string \<Rightarrow> agent_state \<Rightarrow> run_result" where
  "run_from g env 0 n st =
     (if n = END then \<lparr>trace = [], calls = [], outcome = Inr st\<rparr>
      else \<lparr>trace = [], calls = [], outcome = Inl GraphRecursionError\<rparr>)"
| "run_from g env (Suc k) n st =
     (if n = END then \<lparr>trace = [], calls = [], outcome = Inr st\<rparr>
      else
        (case map_of (nodes g) n of
           None \<Rightarrow> \<lparr>trace = [], calls = [], outcome = Inl (KeyError n)\<rparr>
         | Some f \<Rightarrow>
             (case f env st of
                (cs, Inl e) \<Rightarrow> \<lparr>trace = [n], calls = cs, outcome = Inl e\<rparr>
              | (cs, Inr u) \<Rightarrow>
                  (let st' = apply_update st u in
                   case successor g n st' of
                     Inl e \<Rightarrow> \<lparr>trace = [n], calls = cs, outcome = Inl e\<rparr>
                   | Inr n' \<Rightarrow>
                       (let r = run_from g env k n' st'
                        in \<lparr>trace = n # trace r, calls = cs @ calls r,
                            outcome = outcome r\<rparr>)))))"

definition recursion_limit :: nat where
  "recursion_limit = 25"

text \<open>
  \<open>graph.invoke({"messages": conversation})\<close>: the run from the entry point on a state
  that holds the conversation and neither routing key. This is the entry point the
  specification calls \<open>route_and_respond\<close>.
\<close>

definition initial_state :: "message list \<Rightarrow> agent_state" where
  "initial_state conversation =
     \<lparr>messages = conversation, tool_choice = Missing, question = Missing\<rparr>"

definition route_and_respond :: "collaborators \<Rightarrow> message list \<Rightarrow> run_result" where
  "route_and_respond env conversation =
     run_from build_graph env recursion_limit (entry_point build_graph)
       (initial_state conversation)"

subsection \<open>Vocabulary of the properties\<close>

text \<open>
  A question mentions a keyword when the keyword occurs in it, letter case aside: the
  lower-cased keyword is a substring of the lower-cased question.
\<close>

definition mentions :: "string \<Rightarrow> string \<Rightarrow> bool" where
  "mentions q k = str_in (lower k) (lower q)"

text \<open>The words of a text: its maximal runs of characters other than the space.\<close>

fun split_words :: "string \<Rightarrow> string \<Rightarrow> string list" where
  "split_words w [] = (if w = [] then [] else [rev w])"
| "split_words w (c # s) =
     (if c = CHR '' '' then (if w = [] then [] else [rev w]) @ split_words [] s
      else split_words (c # w) s)"

definition words_of :: "string \<Rightarrow> string list" where
  "words_of s = split_words [] s"

subsection \<open>Example collaborators\<close>

text \<open>
  Collaborators for the worked examples: all of them answering, each tool raising in
  turn, and the chat model raising.
\<close>

definition answering :: collaborators where
  "answering =
     \<lparr>retrieve_information = (\<lambda>q. Inr ''Direct loans are federal loans.''),
      tavily_tool = (\<lambda>q. Inr [[(''title'', ''Headlines''), (''content'', ''Rates held.'')],
                                [(''url'', ''https://example.org'')]]),
      arxiv_tool = (\<lambda>q. Inr ''Published: 2020. Title: Graph colouring.''),
      chat_model = (\<lambda>ms. Inr (AIMessage ''Here is what I found.''))\<rparr>"

definition rag_down :: collaborators where
  "rag_down = answering\<lparr>retrieve_information := (\<lambda>q. Inl (Exception ''vector store offline''))\<rparr>"

definition web_down :: collaborators where
  "web_down = answering\<lparr>tavily_tool := (\<lambda>q. Inl (Exception ''TAVILY_API_KEY not set''))\<rparr>"

definition arxiv_down :: collaborators where
  "arxiv_down = answering\<lparr>arxiv_tool := (\<lambda>q. Inl (Exception ''connection refused''))\<rparr>"

definition model_down :: collaborators where
  "model_down = answering\<lparr>chat_model := (\<lambda>ms. Inl (Exception ''rate limit exceeded''))\<rparr>"

section \<open>Properties\<close>

subsection \<open>Strings and keywords\<close>

declare run_from.simps [simp del]

text \<open>The table of \<open>lower_char\<close>, written out for evaluation.\<close>

lemma lower_char_if:
  "lower_char c =
     (
      if c = CHR ''A'' then CHR ''a'' else
      if c = CHR ''B'' then CHR ''b'' else
      if c = CHR ''C'' then CHR ''c'' else
      if c = CHR ''D'' then CHR ''d'' else
      if c = CHR ''E'' then CHR ''e'' else
      if c = CHR ''F'' then CHR ''f'' else
      if c = CHR ''G'' then CHR ''g'' else
      if c = CHR ''H'' then CHR ''h'' else
      if c = CHR ''I'' then CHR ''i'' else
      if c = CHR ''J'' then CHR ''j'' else
      if c = CHR ''K'' then CHR ''k'' else
      if c = CHR ''L'' then CHR ''l'' else
      if c = CHR ''M'' then CHR ''m'' else
      if c = CHR ''N'' then CHR ''n'' else
      if c = CHR ''O'' then CHR ''o'' else
      if c = CHR ''P'' then CHR ''p'' else
      if c = CHR ''Q'' then CHR ''q'' else
      if c = CHR ''R'' then CHR ''r'' else
      if c = CHR ''S'' then CHR ''s'' else
      if c = CHR ''T'' then CHR ''t'' else
      if c = CHR ''U'' then CHR ''u'' else
      if c = CHR ''V'' then CHR ''v'' else
      if c = CHR ''W'' then CHR ''w'' else
      if c = CHR ''X'' then CHR ''x'' else
      if c = CHR ''Y'' then CHR ''y'' else
      if c = CHR ''Z'' then CHR ''z'' else
      c)"
  by (simp add: lower_char_def ascii_uppercase_def ascii_lowercase_def)

lemmas str_eval = lower_def lower_char_if

lemmas kw_eval = should_use_rag_def should_use_web_search_def should_use_arxiv_def
  rag_keywords_def web_keywords_def arxiv_keywords_def

text \<open>The recursive tests agree with the usual reading of prefix and substring.\<close>

lemma startswith_iff: "startswith s k \<longleftrightarrow> (\<exists>post. s = k @ post)"
  by (induction s k rule: startswith.induct) auto

lemma str_in_iff: "str_in k s \<longleftrightarrow> (\<exists>pre post. s = pre @ k @ post)"
proof (induction s)
  case Nil
  then show ?case by auto
next
  case (Cons c s)
  show ?case
  proof
    assume "str_in k (c # s)"
    then consider "startswith (c # s) k" | "str_in k s" by auto
    then show "\<exists>pre post. c # s = pre @ k @ post"
    proof cases
      case 1
      then obtain post where "c # s = k @ post" using startswith_iff by blast
      then have "c # s = [] @ k @ post" by simp
      then show ?thesis by blast
    next
      case 2
      then obtain pre post where "s = pre @ k @ post" using Cons.IH by blast
      then have "c # s = (c # pre) @ k @ post" by simp
      then show ?thesis by blast
    qed
  next
    assume "\<exists>pre post. c # s = pre @ k @ post"
    then obtain pre post where e: "c # s = pre @ k @ post" by blast
    show "str_in k (c # s)"
    proof (cases pre)
      case Nil
      then have "startswith (c # s) k" using e startswith_iff by auto
      then show ?thesis by simp
    next
      case (Cons a pre')
      then have "s = pre' @ k @ post" using e by simp
      then have "str_in k s" using Cons.IH by blast
      then show ?thesis by simp
    qed
  qed
qed

text \<open>Lower-casing keeps occurrences, and lower-casing twice changes nothing more.\<close>

lemma str_in_map: "str_in k s \<Longrightarrow> str_in (map f k) (map f s)"
  unfolding str_in_iff by (metis map_append)

lemma lower_char_idem: "lower_char (lower_char c) = lower_char c"
  by (simp add: lower_char_if)

lemma lower_idem: "lower (lower s) = lower s"
  by (simp add: lower_def lower_char_idem comp_def)

lemma str_in_lower_mentions:
  assumes "str_in k (lower q)"
  shows "mentions q k"
proof -
  have "str_in (lower k) (lower (lower q))"
    using str_in_map [OF assms, of lower_char] by (simp only: lower_def)
  then show ?thesis by (simp only: lower_idem mentions_def)
qed

text \<open>
  The finance and recency keywords are written in lower case, so the test of the code
  is the test whether the question mentions one.
\<close>

lemma rag_keywords_lower: "k \<in> set rag_keywords \<Longrightarrow> lower k = k"
proof -
  have "list_all (\<lambda>k. lower k = k) rag_keywords"
    by (simp add: rag_keywords_def str_eval)
  then show "k \<in> set rag_keywords \<Longrightarrow> lower k = k" by (simp add: list_all_iff)
qed

lemma web_keywords_lower: "k \<in> set web_keywords \<Longrightarrow> lower k = k"
proof -
  have "list_all (\<lambda>k. lower k = k) web_keywords"
    by (simp add: web_keywords_def str_eval)
  then show "k \<in> set web_keywords \<Longrightarrow> lower k = k" by (simp add: list_all_iff)
qed

lemma should_use_rag_iff: "should_use_rag q \<longleftrightarrow> (\<exists>k\<in>set rag_keywords. mentions q k)"
  by (auto simp: should_use_rag_def mentions_def list_ex_iff rag_keywords_lower)

lemma should_use_web_search_iff:
  "should_use_web_search q \<longleftrightarrow> (\<exists>k\<in>set web_keywords. mentions q k)"
  by (auto simp: should_use_web_search_def mentions_def list_ex_iff web_keywords_lower)

text \<open>
  Of the research keywords all but \<open>AI\<close> are in lower case. A question that the code
  takes for research mentions a research keyword; the converse holds for every keyword
  but \<open>AI\<close>.
\<close>

lemma arxiv_keywords_lower:
  assumes "k \<in> set arxiv_keywords" and "k \<noteq> ''AI''"
  shows "lower k = k"
proof -
  have "list_all (\<lambda>k. lower k = k) (filter (\<lambda>k. k \<noteq> ''AI'') arxiv_keywords)"
    by (simp add: arxiv_keywords_def str_eval)
  moreover have "k \<in> set (filter (\<lambda>k. k \<noteq> ''AI'') arxiv_keywords)"
    using assms by simp
  ultimately show ?thesis unfolding list_all_iff by blast
qed

lemma should_use_arxiv_mentions:
  "should_use_arxiv q \<Longrightarrow> \<exists>k\<in>set arxiv_keywords. mentions q k"
  by (auto simp: should_use_arxiv_def list_ex_iff dest: str_in_lower_mentions)

lemma mentions_should_use_arxiv:
  assumes "k \<in> set arxiv_keywords" and "k \<noteq> ''AI''" and "mentions q k"
  shows "should_use_arxiv q"
proof -
  have "str_in k (lower q)"
    using assms arxiv_keywords_lower by (simp add: mentions_def)
  then show ?thesis
    using assms(1) by (auto simp: should_use_arxiv_def list_ex_iff)
qed

lemma no_keyword_in_empty:
  "\<not> should_use_rag []" "\<not> should_use_web_search []" "\<not> should_use_arxiv []"
  by (simp_all add: kw_eval str_eval)

subsection \<open>Classification\<close>

text \<open>The scan from the newest message back finds the newest human message.\<close>

lemma first_human_None_iff: "first_human ms = None \<longleftrightarrow> (\<forall>m\<in>set ms. \<not> is_human m)"
  by (induction ms) auto

lemma first_human_newest:
  assumes "\<forall>m\<in>set newer. \<not> is_human m"
  shows "first_human (rev (older @ [HumanMessage q] @ newer)) = Some q"
proof -
  have skip: "first_human (xs @ ys) = first_human ys" if "\<forall>m\<in>set xs. \<not> is_human m" for xs ys
    using that by (induction xs) auto
  show ?thesis using assms by (simp add: skip)
qed

text \<open>
  The decision of \<open>analyze_question\<close> for a conversation whose newest human message
  is \<open>q\<close>: the first test that holds names the tool.
\<close>

lemma analyze_question_decision:
  assumes "first_human (rev (messages st)) = Some q"
  shows "analyze_question st =
    Decision (if should_use_rag q then ''rag''
              else if should_use_web_search q then ''web_search''
              else if should_use_arxiv q then ''arxiv''
              else ''direct'') q"
proof (cases "q = []")
  case True
  then show ?thesis using assms by (simp add: analyze_question_def no_keyword_in_empty)
next
  case False
  then show ?thesis using assms by (simp add: analyze_question_def)
qed

text \<open>
  Claim C2, for the keywords the code has. A question that mentions one of the sixteen
  phrases of \<open>rag_keywords\<close> is sent to retrieval (\<open>rag\<close>), whatever recency or
  research keywords it also mentions.
\<close>

theorem finance_keyword_routes_to_retrieval:
  assumes "first_human (rev (messages st)) = Some q"
    and "k \<in> set rag_keywords"
    and "mentions q k"
  shows "analyze_question st = Decision ''rag'' q"
proof -
  have "should_use_rag q" using assms(2,3) should_use_rag_iff by blast
  then show ?thesis using analyze_question_decision [OF assms(1)] by simp
qed

theorem finance_keyword_routes_to_retrieval_witness:
  "mentions ''What is the latest research on student loan repayment?'' ''repayment''
   \<and> should_use_web_search ''What is the latest research on student loan repayment?''
   \<and> should_use_arxiv ''What is the latest research on student loan repayment?''
   \<and> analyze_question
        (initial_state [HumanMessage ''What is the latest research on student loan repayment?''])
      = Decision ''rag'' ''What is the latest research on student loan repayment?''"
  using finance_keyword_routes_to_retrieval
    [of "initial_state [HumanMessage ''What is the latest research on student loan repayment?'']"
        "''What is the latest research on student loan repayment?''" "''repayment''"]
  by (simp add: initial_state_def mentions_def str_eval kw_eval)

text \<open>
  Claim C2, for the words \<open>loan\<close>, \<open>grant\<close> and \<open>aid\<close>, which the specification
  names among the finance keywords. The code has them only inside longer phrases such
  as \<open>student loan\<close>, \<open>pell grant\<close> and \<open>financial aid\<close>: a question about a car
  loan, about Ulysses Grant or about a first aid kit mentions one of the three words,
  passes none of the keyword tests and gets the decision \<open>direct\<close>.
\<close>

theorem bare_loan_grant_aid_are_not_finance_keywords:
  "mentions ''How do I get a car loan?'' ''loan''
   \<and> analyze_question (initial_state [HumanMessage ''How do I get a car loan?''])
       = Decision ''direct'' ''How do I get a car loan?''
   \<and> mentions ''Who was Ulysses Grant?'' ''grant''
   \<and> analyze_question (initial_state [HumanMessage ''Who was Ulysses Grant?''])
       = Decision ''direct'' ''Who was Ulysses Grant?''
   \<and> mentions ''What goes in a first aid kit?'' ''aid''
   \<and> analyze_question (initial_state [HumanMessage ''What goes in a first aid kit?''])
       = Decision ''direct'' ''What goes in a first aid kit?''"
proof -
  have loan: "mentions ''How do I get a car loan?'' ''loan''"
    and grant: "mentions ''Who was Ulysses Grant?'' ''grant''"
    and aid: "mentions ''What goes in a first aid kit?'' ''aid''"
    by (simp_all add: mentions_def str_eval)
  have tests:
    "\<not> should_use_rag ''How do I get a car loan?''"
    "\<not> should_use_web_search ''How do I get a car loan?''"
    "\<not> should_use_arxiv ''How do I get a car loan?''"
    "\<not> should_use_rag ''Who was Ulysses Grant?''"
    "\<not> should_use_web_search ''Who was Ulysses Grant?''"
    "\<not> should_use_arxiv ''Who was Ulysses Grant?''"
    "\<not> should_use_rag ''What goes in a first aid kit?''"
    "\<not> should_use_web_search ''What goes in a first aid kit?''"
    "\<not> should_use_arxiv ''What goes in a first aid kit?''"
    by (simp_all add: kw_eval str_eval)
  have newest: "first_human (rev (messages (initial_state [HumanMessage q]))) = Some q" for q
    by (simp add: initial_state_def)
  have "analyze_question (initial_state [HumanMessage ''How do I get a car loan?''])
       = Decision ''direct'' ''How do I get a car loan?''"
    "analyze_question (initial_state [HumanMessage ''Who was Ulysses Grant?''])
       = Decision ''direct'' ''Who was Ulysses Grant?''"
    "analyze_question (initial_state [HumanMessage ''What goes in a first aid kit?''])
       = Decision ''direct'' ''What goes in a first aid kit?''"
    unfolding analyze_question_decision [OF newest] using tests by simp_all
  with loan grant aid show ?thesis by blast
qed

text \<open>
  Claim C3. A question that mentions a recency keyword and no finance or education
  keyword is sent to web search; and the question
  \<open>What is the latest news on AI research?\<close>, which passes the recency test and the
  research test and fails the finance test, is sent to web search.
\<close>

theorem recency_keyword_routes_to_web_search:
  "(\<forall>st q k. first_human (rev (messages st)) = Some q
        \<and> k \<in> set web_keywords \<and> mentions q k
        \<and> (\<forall>k'\<in>set rag_keywords. \<not> mentions q k')
      \<longrightarrow> analyze_question st = Decision ''web_search'' q)
   \<and> should_use_web_search ''What is the latest news on AI research?''
   \<and> should_use_arxiv ''What is the latest news on AI research?''
   \<and> \<not> should_use_rag ''What is the latest news on AI research?''
   \<and> analyze_question (initial_state [HumanMessage ''What is the latest news on AI research?''])
      = Decision ''web_search'' ''What is the latest news on AI research?''"
proof -
  have general: "analyze_question st = Decision ''web_search'' q"
    if "first_human (rev (messages st)) = Some q" and "k \<in> set web_keywords"
      and "mentions q k" and "\<forall>k'\<in>set rag_keywords. \<not> mentions q k'"
    for st q k
  proof -
    have "should_use_web_search q" using that(2,3) should_use_web_search_iff by blast
    moreover have "\<not> should_use_rag q" using that(4) should_use_rag_iff by blast
    ultimately show ?thesis using analyze_question_decision [OF that(1)] by simp
  qed
  have web: "should_use_web_search ''What is the latest news on AI research?''"
    by (simp add: should_use_web_search_def web_keywords_def str_eval)
  have arxiv: "should_use_arxiv ''What is the latest news on AI research?''"
    by (simp add: should_use_arxiv_def arxiv_keywords_def str_eval)
  have rag: "\<not> should_use_rag ''What is the latest news on AI research?''"
    by (simp add: should_use_rag_def rag_keywords_def str_eval)
  have newest: "first_human (rev (messages
      (initial_state [HumanMessage ''What is the latest news on AI research?'']))) =
      Some ''What is the latest news on AI research?''"
    by (simp add: initial_state_def)
  have "analyze_question (initial_state [HumanMessage ''What is the latest news on AI research?''])
      = Decision ''web_search'' ''What is the latest news on AI research?''"
    unfolding analyze_question_decision [OF newest] using web rag by simp
  with general web arxiv rag show ?thesis by blast
qed

theorem recency_keyword_routes_to_web_search_witness:
  "mentions ''Is it raining in Paris today?'' ''today''
   \<and> \<not> list_ex (mentions ''Is it raining in Paris today?'') rag_keywords
   \<and> analyze_question (initial_state [HumanMessage ''Is it raining in Paris today?''])
      = Decision ''web_search'' ''Is it raining in Paris today?''"
proof -
  have newest: "first_human (rev (messages
      (initial_state [HumanMessage ''Is it raining in Paris today?'']))) =
      Some ''Is it raining in Paris today?''"
    by (simp add: initial_state_def)
  have kw: "''today'' \<in> set web_keywords"
    by (simp add: web_keywords_def)
  have m: "mentions ''Is it raining in Paris today?'' ''today''"
    by (simp add: mentions_def str_eval)
  have none: "\<not> list_ex (mentions ''Is it raining in Paris today?'') rag_keywords"
    by (simp add: rag_keywords_def mentions_def str_eval)
  then have none': "\<forall>k'\<in>set rag_keywords. \<not> mentions ''Is it raining in Paris today?'' k'"
    by (simp add: list_ex_iff)
  have "analyze_question (initial_state [HumanMessage ''Is it raining in Paris today?''])
      = Decision ''web_search'' ''Is it raining in Paris today?''"
    using recency_keyword_routes_to_web_search newest kw m none' by blast
  with m none show ?thesis by blast
qed

text \<open>
  Research keywords. A question that mentions one of the lower-case research keywords
  and no finance or recency keyword is sent to academic search (\<open>arxiv\<close>). The keyword
  \<open>AI\<close> is compared with the lower-cased question, which holds no capital letter, so
  it occurs in no question at all.
\<close>

lemma lowercase_research_keyword_routes_to_academic_search:
  assumes "first_human (rev (messages st)) = Some q"
    and "k \<in> set arxiv_keywords" and "k \<noteq> ''AI''" and "mentions q k"
    and "\<forall>k'\<in>set rag_keywords. \<not> mentions q k'"
    and "\<forall>k'\<in>set web_keywords. \<not> mentions q k'"
  shows "analyze_question st = Decision ''arxiv'' q"
proof -
  have "should_use_arxiv q" using assms(2,3,4) by (rule mentions_should_use_arxiv)
  moreover have "\<not> should_use_rag q" using assms(5) should_use_rag_iff by blast
  moreover have "\<not> should_use_web_search q" using assms(6) should_use_web_search_iff by blast
  ultimately show ?thesis using analyze_question_decision [OF assms(1)] by simp
qed

lemma str_in_subset: "str_in k s \<Longrightarrow> set k \<subseteq> set s"
  unfolding str_in_iff by auto

lemma keyword_AI_in_no_question: "\<not> str_in ''AI'' (lower q)"
proof
  assume "str_in ''AI'' (lower q)"
  then have "CHR ''A'' \<in> set (lower q)" using str_in_subset by fastforce
  then obtain c where "lower_char c = CHR ''A''" by (auto simp: lower_def)
  then show False by (simp add: lower_char_if split: if_splits)
qed

text \<open>
  Claim C4, at the question \<open>What is AI?\<close>. The question contains the research
  keyword \<open>AI\<close> as written and mentions no finance or recency keyword, and the code
  answers \<open>direct\<close>, not \<open>arxiv\<close>: the research test fails on it.
\<close>

theorem research_keyword_AI_routes_to_direct:
  "''AI'' \<in> set arxiv_keywords
   \<and> str_in ''AI'' ''What is AI?''
   \<and> mentions ''What is AI?'' ''AI''
   \<and> \<not> list_ex (mentions ''What is AI?'') rag_keywords
   \<and> \<not> list_ex (mentions ''What is AI?'') web_keywords
   \<and> \<not> should_use_arxiv ''What is AI?''
   \<and> analyze_question (initial_state [HumanMessage ''What is AI?''])
      = Decision ''direct'' ''What is AI?''"
proof -
  have kw: "''AI'' \<in> set arxiv_keywords" by (simp add: arxiv_keywords_def)
  have raw: "str_in ''AI'' ''What is AI?''" by simp
  have m: "mentions ''What is AI?'' ''AI''" by (simp add: mentions_def str_eval)
  have rag: "\<not> list_ex (mentions ''What is AI?'') rag_keywords"
    by (simp add: rag_keywords_def mentions_def str_eval)
  have web: "\<not> list_ex (mentions ''What is AI?'') web_keywords"
    by (simp add: web_keywords_def mentions_def str_eval)
  have arxiv: "\<not> should_use_arxiv ''What is AI?''"
    by (simp add: should_use_arxiv_def arxiv_keywords_def str_eval)
  have rag': "\<not> should_use_rag ''What is AI?''"
    using rag by (simp add: should_use_rag_iff list_ex_iff)
  have web': "\<not> should_use_web_search ''What is AI?''"
    using web by (simp add: should_use_web_search_iff list_ex_iff)
  have newest: "first_human (rev (messages (initial_state [HumanMessage ''What is AI?'']))) =
      Some ''What is AI?''"
    by (simp add: initial_state_def)
  have "analyze_question (initial_state [HumanMessage ''What is AI?''])
      = Decision ''direct'' ''What is AI?''"
    unfolding analyze_question_decision [OF newest] using rag' web' arxiv by simp
  with kw raw m rag web arxiv show ?thesis by blast
qed

text \<open>
  Claim C7. In a conversation without a human message the scan from the newest message
  back finds none, and the decision is \<open>direct\<close> with the empty question.
\<close>

theorem no_human_message_is_direct:
  assumes "\<forall>m\<in>set (messages st). \<not> is_human m"
  shows "first_human (rev (messages st)) = None
    \<and> analyze_question st = Decision ''direct'' ''''"
proof -
  have "first_human (rev (messages st)) = None"
    using assms by (simp add: first_human_None_iff)
  then show ?thesis by (simp add: analyze_question_def)
qed

theorem no_human_message_is_direct_witness:
  "list_all (\<lambda>m. \<not> is_human m) [SystemMessage ''Be brief.'', AIMessage ''Hello!'']
   \<and> analyze_question (initial_state [SystemMessage ''Be brief.'', AIMessage ''Hello!''])
      = Decision ''direct'' ''''
   \<and> analyze_question (initial_state []) = Decision ''direct'' ''''"
  using no_human_message_is_direct
      [of "initial_state [SystemMessage ''Be brief.'', AIMessage ''Hello!'']"]
    no_human_message_is_direct [of "initial_state []"]
  by (simp add: initial_state_def)

text \<open>
  Claim C10. The keyword test is substring containment in the lower-cased question:
  \<open>Which wallpaper suits my bedroom?\<close> has \<open>paper\<close> inside \<open>wallpaper\<close> only, none
  of its words is a research keyword, and it is sent to academic search.
\<close>

theorem keyword_inside_a_word_matches:
  "str_in ''paper'' (lower ''Which wallpaper suits my bedroom?'')
   \<and> words_of (lower ''Which wallpaper suits my bedroom?'')
      = [''which'', ''wallpaper'', ''suits'', ''my'', ''bedroom?'']
   \<and> \<not> list_ex (\<lambda>k. k \<in> set (words_of (lower ''Which wallpaper suits my bedroom?'')))
          (rag_keywords @ web_keywords @ arxiv_keywords)
   \<and> filter (\<lambda>k. str_in k (lower ''Which wallpaper suits my bedroom?''))
          (rag_keywords @ web_keywords @ arxiv_keywords) = [''paper'']
   \<and> analyze_question (initial_state [HumanMessage ''Which wallpaper suits my bedroom?''])
      = Decision ''arxiv'' ''Which wallpaper suits my bedroom?''"
proof -
  have low: "lower ''Which wallpaper suits my bedroom?'' = ''which wallpaper suits my bedroom?''"
    by (simp add: str_eval)
  have inside: "str_in ''paper'' ''which wallpaper suits my bedroom?''" by simp
  have ws: "words_of ''which wallpaper suits my bedroom?''
      = [''which'', ''wallpaper'', ''suits'', ''my'', ''bedroom?'']"
    by (simp add: words_of_def)
  have noword: "\<not> list_ex (\<lambda>k. k \<in> set [''which'', ''wallpaper'', ''suits'', ''my'', ''bedroom?''])
          (rag_keywords @ web_keywords @ arxiv_keywords)"
    by (simp add: rag_keywords_def web_keywords_def arxiv_keywords_def)
  have only: "filter (\<lambda>k. str_in k ''which wallpaper suits my bedroom?'')
          (rag_keywords @ web_keywords @ arxiv_keywords) = [''paper'']"
    by (simp add: rag_keywords_def web_keywords_def arxiv_keywords_def)
  have rag: "\<not> should_use_rag ''Which wallpaper suits my bedroom?''"
    unfolding should_use_rag_def Let_def low by (simp add: rag_keywords_def)
  have web: "\<not> should_use_web_search ''Which wallpaper suits my bedroom?''"
    unfolding should_use_web_search_def Let_def low by (simp add: web_keywords_def)
  have arxiv: "should_use_arxiv ''Which wallpaper suits my bedroom?''"
    unfolding should_use_arxiv_def Let_def low by (simp add: arxiv_keywords_def)
  have newest: "first_human (rev (messages
      (initial_state [HumanMessage ''Which wallpaper suits my bedroom?'']))) =
      Some ''Which wallpaper suits my bedroom?''"
    by (simp add: initial_state_def)
  have "analyze_question (initial_state [HumanMessage ''Which wallpaper suits my bedroom?''])
      = Decision ''arxiv'' ''Which wallpaper suits my bedroom?''"
    unfolding analyze_question_decision [OF newest] using rag web arxiv by simp
  moreover have "\<not> list_ex (\<lambda>k. k \<in> set (words_of ''which wallpaper suits my bedroom?''))
          (rag_keywords @ web_keywords @ arxiv_keywords)"
    unfolding ws by (rule noword)
  ultimately show ?thesis unfolding low using inside ws only by blast
qed

subsection \<open>Routing\<close>

text \<open>
  \<open>route_to_tool\<close> answers with one of the four labels of the conditional edge, and
  with \<open>generate_response\<close> unless \<open>tool_choice\<close> is one of the three tool names.
\<close>

lemma route_to_tool_total:
  "route_to_tool st \<in> {''use_rag'', ''use_web_search'', ''use_arxiv'', ''generate_response''}"
  by (simp add: route_to_tool_def Let_def)

lemma route_to_tool_default:
  assumes "tool_choice st \<notin> {Present (Some ''rag''), Present (Some ''web_search''),
      Present (Some ''arxiv'')}"
  shows "route_to_tool st = ''generate_response''"
  using assms by (cases "tool_choice st") (auto simp: route_to_tool_def Let_def)

lemma route_to_tool_missing_or_None:
  "tool_choice st = Missing \<Longrightarrow> route_to_tool st = ''generate_response''"
  "tool_choice st = Present None \<Longrightarrow> route_to_tool st = ''generate_response''"
  by (simp_all add: route_to_tool_def)

lemma route_to_tool_after_decision:
  "route_to_tool (apply_update st (Decision t q)) =
     (if t = ''rag'' then ''use_rag''
      else if t = ''web_search'' then ''use_web_search''
      else if t = ''arxiv'' then ''use_arxiv''
      else ''generate_response'')"
  by (simp add: route_to_tool_def)

text \<open>The label is always in the table of the conditional edge, which maps it to itself.\<close>

lemma successor_analyze_question:
  "successor build_graph ''analyze_question'' st = Inr (route_to_tool st)"
proof -
  have "map_of [(''use_rag'', ''use_rag''), (''use_web_search'', ''use_web_search''),
          (''use_arxiv'', ''use_arxiv''), (''generate_response'', ''generate_response'')]
        (route_to_tool st) = Some (route_to_tool st)"
    using route_to_tool_total [of st] by auto
  then show ?thesis by (simp add: successor_def build_graph_def)
qed

lemma successor_tool_node:
  assumes "n \<in> {''use_rag'', ''use_web_search'', ''use_arxiv''}"
  shows "successor build_graph n st = Inr ''generate_response''"
  using assms by (auto simp: successor_def build_graph_def)

lemma successor_generate_response:
  "successor build_graph ''generate_response'' st = Inr END"
  by (simp add: successor_def build_graph_def)

subsection \<open>Runs of the graph\<close>

lemma recursion_limit_Suc: "recursion_limit = Suc 24"
  by (simp add: recursion_limit_def)

lemma run_from_END: "run_from g env k END st = \<lparr>trace = [], calls = [], outcome = Inr st\<rparr>"
  by (cases k) (simp_all add: run_from.simps)

lemma run_generate_response:
  assumes "0 < k"
  shows "run_from build_graph env k ''generate_response'' st =
     \<lparr>trace = [''generate_response''],
      calls = [CallModel (system_prompt # messages st)],
      outcome = (case chat_model env (system_prompt # messages st) of
                   Inl e \<Rightarrow> Inl e
                 | Inr reply \<Rightarrow> Inr (st\<lparr>messages := messages st @ [reply]\<rparr>))\<rparr>"
proof -
  obtain k' where k: "k = Suc k'" using assms by (cases k) auto
  have node: "map_of (nodes build_graph) ''generate_response'' = Some generate_response"
    by (simp add: build_graph_def)
  have ne: "''generate_response'' \<noteq> END" by (simp add: END_def)
  show ?thesis
    unfolding k
    by (cases "chat_model env (system_prompt # messages st)")
       (simp_all add: run_from.simps(2) node ne successor_generate_response run_from_END
          generate_response_def)
qed

lemma tool_nodes:
  "map_of (nodes build_graph) ''use_rag'' = Some use_rag_tool"
  "map_of (nodes build_graph) ''use_web_search'' = Some use_web_search_tool"
  "map_of (nodes build_graph) ''use_arxiv'' = Some use_arxiv_tool"
  by (simp_all add: build_graph_def)

lemma run_tool_raises:
  assumes "n \<in> {''use_rag'', ''use_web_search'', ''use_arxiv''}"
    and "map_of (nodes build_graph) n = Some f"
    and "f env st = (cs, Inl e)"
    and "0 < k"
  shows "run_from build_graph env k n st = \<lparr>trace = [n], calls = cs, outcome = Inl e\<rparr>"
proof -
  obtain k' where k: "k = Suc k'" using assms(4) by (cases k) auto
  have "n \<noteq> END" using assms(1) by (auto simp: END_def)
  then show ?thesis using assms(2,3) unfolding k by (simp add: run_from.simps(2))
qed

lemma run_tool_then_generate:
  assumes "n \<in> {''use_rag'', ''use_web_search'', ''use_arxiv''}"
    and "map_of (nodes build_graph) n = Some f"
    and "f env st = (cs, Inr (Messages [m]))"
    and "1 < k"
  shows "run_from build_graph env k n st =
     \<lparr>trace = [n, ''generate_response''],
      calls = cs @ [CallModel (system_prompt # messages st @ [m])],
      outcome = (case chat_model env (system_prompt # messages st @ [m]) of
                   Inl e \<Rightarrow> Inl e
                 | Inr reply \<Rightarrow> Inr (st\<lparr>messages := messages st @ [m] @ [reply]\<rparr>))\<rparr>"
proof -
  obtain k' where k: "k = Suc k'" and k': "0 < k'" using assms(4) by (cases k) auto
  have ne: "n \<noteq> END" using assms(1) by (auto simp: END_def)
  show ?thesis
    unfolding k
    by (cases "chat_model env (system_prompt # messages st @ [m])")
       (simp_all add: run_from.simps(2) ne assms(2,3)
          successor_tool_node [OF assms(1)] run_generate_response [OF k'])
qed

lemma run_analyze_question:
  "run_from build_graph env (Suc k) ''analyze_question'' st =
     (let st' = apply_update st (analyze_question st);
          r = run_from build_graph env k (route_to_tool st') st'
      in \<lparr>trace = ''analyze_question'' # trace r, calls = calls r, outcome = outcome r\<rparr>)"
proof -
  have node: "map_of (nodes build_graph) ''analyze_question''
      = Some (\<lambda>env st. ([], Inr (analyze_question st)))"
    by (simp add: build_graph_def)
  have ne: "''analyze_question'' \<noteq> END" by (simp add: END_def)
  show ?thesis
    by (simp add: run_from.simps(2) node ne successor_analyze_question Let_def)
qed

lemma route_and_respond_unfold:
  "route_and_respond env conv =
     (let st' = apply_update (initial_state conv) (analyze_question (initial_state conv));
          r = run_from build_graph env 24 (route_to_tool st') st'
      in \<lparr>trace = ''analyze_question'' # trace r, calls = calls r, outcome = outcome r\<rparr>)"
proof -
  have entry: "entry_point build_graph = ''analyze_question''"
    by (simp add: build_graph_def)
  show ?thesis
    unfolding route_and_respond_def recursion_limit_Suc entry
    by (rule run_analyze_question)
qed

subsection \<open>The four paths\<close>

text \<open>A tool is chosen only for a non-empty question, which is then the query.\<close>

lemma analyze_question_labels:
  "\<exists>t q. analyze_question st = Decision t q
     \<and> t \<in> {''rag'', ''web_search'', ''arxiv'', ''direct''}"
  by (auto simp: analyze_question_def Let_def split: option.splits)

lemma analyze_question_tool_nonempty:
  assumes "analyze_question st = Decision t q" and "t \<noteq> ''direct''"
  shows "q \<noteq> []"
  using assms by (auto simp: analyze_question_def Let_def split: option.splits if_splits)

lemma tool_query_after_decision:
  "q \<noteq> [] \<Longrightarrow> tool_query (apply_update st (Decision t q)) = Some q"
  by (simp add: tool_query_def)

lemma state_after_decision:
  "apply_update (initial_state conv) (Decision t q) =
     \<lparr>messages = conv, tool_choice = Present (Some t), question = Present (Some q)\<rparr>"
  by (simp add: initial_state_def)

lemma direct_run:
  assumes "analyze_question (initial_state conv) = Decision ''direct'' q"
  shows "route_and_respond env conv =
     \<lparr>trace = [''analyze_question'', ''generate_response''],
      calls = [CallModel (system_prompt # conv)],
      outcome = (case chat_model env (system_prompt # conv) of
                   Inl e \<Rightarrow> Inl e
                 | Inr reply \<Rightarrow>
                     Inr \<lparr>messages = conv @ [reply], tool_choice = Present (Some ''direct''),
                          question = Present (Some q)\<rparr>)\<rparr>"
proof -
  define st where "st = apply_update (initial_state conv) (Decision ''direct'' q)"
  have route: "route_to_tool st = ''generate_response''"
    unfolding st_def route_to_tool_after_decision by simp
  have st: "st = \<lparr>messages = conv, tool_choice = Present (Some ''direct''),
      question = Present (Some q)\<rparr>"
    unfolding st_def by (rule state_after_decision)
  have run: "run_from build_graph env 24 ''generate_response'' st =
     \<lparr>trace = [''generate_response''],
      calls = [CallModel (system_prompt # messages st)],
      outcome = (case chat_model env (system_prompt # messages st) of
                   Inl e \<Rightarrow> Inl e
                 | Inr reply \<Rightarrow> Inr (st\<lparr>messages := messages st @ [reply]\<rparr>))\<rparr>"
    by (rule run_generate_response) simp
  show ?thesis
    unfolding route_and_respond_unfold assms Let_def st_def [symmetric] route run
    by (cases "chat_model env (system_prompt # conv)") (simp_all add: st)
qed

lemma rag_run:
  assumes "analyze_question (initial_state conv) = Decision ''rag'' q"
  shows "route_and_respond env conv =
     (let m = SystemMessage
                (case retrieve_information env (Some q) of
                   Inr rag_result \<Rightarrow> ''RAG Tool Result: '' @ rag_result
                 | Inl e \<Rightarrow> ''RAG tool error: '' @ str_exn e)
      in \<lparr>trace = [''analyze_question'', ''use_rag'', ''generate_response''],
          calls = [CallRag (Some q), CallModel (system_prompt # conv @ [m])],
          outcome = (case chat_model env (system_prompt # conv @ [m]) of
                       Inl e \<Rightarrow> Inl e
                     | Inr reply \<Rightarrow>
                         Inr \<lparr>messages = conv @ [m] @ [reply],
                              tool_choice = Present (Some ''rag''),
                              question = Present (Some q)\<rparr>)\<rparr>)"
proof -
  define st where "st = apply_update (initial_state conv) (Decision ''rag'' q)"
  have route: "route_to_tool st = ''use_rag''"
    unfolding st_def route_to_tool_after_decision by simp
  define m where "m = SystemMessage
                (case retrieve_information env (Some q) of
                   Inr rag_result \<Rightarrow> ''RAG Tool Result: '' @ rag_result
                 | Inl e \<Rightarrow> ''RAG tool error: '' @ str_exn e)"
  have "q \<noteq> []" using analyze_question_tool_nonempty [OF assms] by simp
  then have query: "tool_query st = Some q"
    unfolding st_def by (rule tool_query_after_decision)
  have node: "use_rag_tool env st = ([CallRag (Some q)], Inr (Messages [m]))"
    by (cases "retrieve_information env (Some q)")
       (simp_all add: use_rag_tool_def query m_def)
  have st: "st = \<lparr>messages = conv, tool_choice = Present (Some ''rag''),
      question = Present (Some q)\<rparr>"
    unfolding st_def by (rule state_after_decision)
  have "run_from build_graph env 24 ''use_rag'' st =
     \<lparr>trace = [''use_rag'', ''generate_response''],
      calls = [CallRag (Some q)] @ [CallModel (system_prompt # messages st @ [m])],
      outcome = (case chat_model env (system_prompt # messages st @ [m]) of
                   Inl e \<Rightarrow> Inl e
                 | Inr reply \<Rightarrow> Inr (st\<lparr>messages := messages st @ [m] @ [reply]\<rparr>))\<rparr>"
    by (rule run_tool_then_generate [OF _ tool_nodes(1) node]) simp_all
  then show ?thesis
    unfolding route_and_respond_unfold assms Let_def st_def [symmetric] route
      m_def [symmetric]
    by (cases "chat_model env (system_prompt # conv @ [m])") (simp_all add: st)
qed

lemma web_search_run:
  assumes "analyze_question (initial_state conv) = Decision ''web_search'' q"
  shows "route_and_respond env conv =
     (let m = SystemMessage
                (case tavily_tool env (Some q) of
                   Inr search_result \<Rightarrow>
                     ''Web Search Results: '' @ join [CHR 0x0A] (map format_hit search_result)
                 | Inl e \<Rightarrow> ''Web search error: '' @ str_exn e)
      in \<lparr>trace = [''analyze_question'', ''use_web_search'', ''generate_response''],
          calls = [CallWebSearch (Some q), CallModel (system_prompt # conv @ [m])],
          outcome = (case chat_model env (system_prompt # conv @ [m]) of
                       Inl e \<Rightarrow> Inl e
                     | Inr reply \<Rightarrow>
                         Inr \<lparr>messages = conv @ [m] @ [reply],
                              tool_choice = Present (Some ''web_search''),
                              question = Present (Some q)\<rparr>)\<rparr>)"
proof -
  define st where "st = apply_update (initial_state conv) (Decision ''web_search'' q)"
  have route: "route_to_tool st = ''use_web_search''"
    unfolding st_def route_to_tool_after_decision by simp
  define m where "m = SystemMessage
                (case tavily_tool env (Some q) of
                   Inr search_result \<Rightarrow>
                     ''Web Search Results: '' @ join [CHR 0x0A] (map format_hit search_result)
                 | Inl e \<Rightarrow> ''Web search error: '' @ str_exn e)"
  have "q \<noteq> []" using analyze_question_tool_nonempty [OF assms] by simp
  then have query: "tool_query st = Some q"
    unfolding st_def by (rule tool_query_after_decision)
  have node: "use_web_search_tool env st = ([CallWebSearch (Some q)], Inr (Messages [m]))"
    by (cases "tavily_tool env (Some q)")
       (simp_all add: use_web_search_tool_def query m_def)
  have st: "st = \<lparr>messages = conv, tool_choice = Present (Some ''web_search''),
      question = Present (Some q)\<rparr>"
    unfolding st_def by (rule state_after_decision)
  have "run_from build_graph env 24 ''use_web_search'' st =
     \<lparr>trace = [''use_web_search'', ''generate_response''],
      calls = [CallWebSearch (Some q)] @ [CallModel (system_prompt # messages st @ [m])],
      outcome = (case chat_model env (system_prompt # messages st @ [m]) of
                   Inl e \<Rightarrow> Inl e
                 | Inr reply \<Rightarrow> Inr (st\<lparr>messages := messages st @ [m] @ [reply]\<rparr>))\<rparr>"
    by (rule run_tool_then_generate [OF _ tool_nodes(2) node]) simp_all
  then show ?thesis
    unfolding route_and_respond_unfold assms Let_def st_def [symmetric] route
      m_def [symmetric]
    by (cases "chat_model env (system_prompt # conv @ [m])") (simp_all add: st)
qed

lemma arxiv_run_answered:
  assumes "analyze_question (initial_state conv) = Decision ''arxiv'' q"
    and "arxiv_tool env (Some q) = Inr arxiv_result"
  shows "route_and_respond env conv =
     (let m = SystemMessage (''ArXiv Search Results: '' @ arxiv_result)
      in \<lparr>trace = [''analyze_question'', ''use_arxiv'', ''generate_response''],
          calls = [CallArxiv (Some q), CallModel (system_prompt # conv @ [m])],
          outcome = (case chat_model env (system_prompt # conv @ [m]) of
                       Inl e \<Rightarrow> Inl e
                     | Inr reply \<Rightarrow>
                         Inr \<lparr>messages = conv @ [m] @ [reply],
                              tool_choice = Present (Some ''arxiv''),
                              question = Present (Some q)\<rparr>)\<rparr>)"
proof -
  define st where "st = apply_update (initial_state conv) (Decision ''arxiv'' q)"
  have route: "route_to_tool st = ''use_arxiv''"
    unfolding st_def route_to_tool_after_decision by simp
  define m where "m = SystemMessage (''ArXiv Search Results: '' @ arxiv_result)"
  have "q \<noteq> []" using analyze_question_tool_nonempty [OF assms(1)] by simp
  then have query: "tool_query st = Some q"
    unfolding st_def by (rule tool_query_after_decision)
  have node: "use_arxiv_tool env st = ([CallArxiv (Some q)], Inr (Messages [m]))"
    by (simp add: use_arxiv_tool_def query assms(2) m_def)
  have st: "st = \<lparr>messages = conv, tool_choice = Present (Some ''arxiv''),
      question = Present (Some q)\<rparr>"
    unfolding st_def by (rule state_after_decision)
  have "run_from build_graph env 24 ''use_arxiv'' st =
     \<lparr>trace = [''use_arxiv'', ''generate_response''],
      calls = [CallArxiv (Some q)] @ [CallModel (system_prompt # messages st @ [m])],
      outcome = (case chat_model env (system_prompt # messages st @ [m]) of
                   Inl e \<Rightarrow> Inl e
                 | Inr reply \<Rightarrow> Inr (st\<lparr>messages := messages st @ [m] @ [reply]\<rparr>))\<rparr>"
    by (rule run_tool_then_generate [OF _ tool_nodes(3) node]) simp_all
  then show ?thesis
    unfolding route_and_respond_unfold assms(1) Let_def st_def [symmetric] route
      m_def [symmetric]
    by (cases "chat_model env (system_prompt # conv @ [m])") (simp_all add: st)
qed

text \<open>
  When the academic search raises, the handler of \<open>use_arxiv_tool\<close> raises in turn
  and the run ends in the tool node, before the chat model is called.
\<close>

lemma arxiv_run_raised:
  assumes "analyze_question (initial_state conv) = Decision ''arxiv'' q"
    and "arxiv_tool env (Some q) = Inl e"
  shows "route_and_respond env conv =
     \<lparr>trace = [''analyze_question'', ''use_arxiv''],
      calls = [CallArxiv (Some q)],
      outcome = Inl (UnboundLocalError ''tool_message'')\<rparr>"
proof -
  define st where "st = apply_update (initial_state conv) (Decision ''arxiv'' q)"
  have route: "route_to_tool st = ''use_arxiv''"
    unfolding st_def route_to_tool_after_decision by simp
  have "q \<noteq> []" using analyze_question_tool_nonempty [OF assms(1)] by simp
  then have query: "tool_query st = Some q"
    unfolding st_def by (rule tool_query_after_decision)
  have node: "use_arxiv_tool env st =
      ([CallArxiv (Some q)], Inl (UnboundLocalError ''tool_message''))"
    by (simp add: use_arxiv_tool_def query assms(2))
  have "run_from build_graph env 24 ''use_arxiv'' st =
     \<lparr>trace = [''use_arxiv''], calls = [CallArxiv (Some q)],
      outcome = Inl (UnboundLocalError ''tool_message'')\<rparr>"
    by (rule run_tool_raises [OF _ tool_nodes(3) node]) simp_all
  then show ?thesis
    unfolding route_and_respond_unfold assms(1) Let_def st_def [symmetric] route
    by simp
qed

lemma decision_of_newest_question:
  "analyze_question (initial_state (older @ [HumanMessage q])) =
    Decision (if should_use_rag q then ''rag''
              else if should_use_web_search q then ''web_search''
              else if should_use_arxiv q then ''arxiv''
              else ''direct'') q"
  by (rule analyze_question_decision) (simp add: initial_state_def)

lemma decision_cases:
  obtains (direct) q where "analyze_question (initial_state conv) = Decision ''direct'' q"
  | (rag) q where "analyze_question (initial_state conv) = Decision ''rag'' q"
  | (web_search) q where "analyze_question (initial_state conv) = Decision ''web_search'' q"
  | (arxiv) q where "analyze_question (initial_state conv) = Decision ''arxiv'' q"
  using analyze_question_labels [of "initial_state conv"] by auto

subsection \<open>The run as a whole\<close>

text \<open>
  Claim C5. When the newest human message passes none of the three keyword tests, the
  decision is \<open>direct\<close>, the run goes from \<open>analyze_question\<close> straight to
  \<open>generate_response\<close>, its only call is the one to the chat model, and when the model
  replies the conversation comes back with that reply appended and nothing else.
\<close>

theorem no_keyword_goes_straight_to_the_model:
  assumes "first_human (rev conv) = Some q"
    and "\<not> should_use_rag q" and "\<not> should_use_web_search q" and "\<not> should_use_arxiv q"
  shows "analyze_question (initial_state conv) = Decision ''direct'' q
    \<and> trace (route_and_respond env conv) = [''analyze_question'', ''generate_response'']
    \<and> calls (route_and_respond env conv) = [CallModel (system_prompt # conv)]
    \<and> \<not> list_ex is_tool_call (calls (route_and_respond env conv))
    \<and> (\<forall>reply. chat_model env (system_prompt # conv) = Inr reply \<longrightarrow>
          (\<exists>st'. outcome (route_and_respond env conv) = Inr st'
             \<and> messages st' = conv @ [reply]))"
proof -
  have "first_human (rev (messages (initial_state conv))) = Some q"
    using assms(1) by (simp add: initial_state_def)
  then have d: "analyze_question (initial_state conv) = Decision ''direct'' q"
    using assms(2,3,4) by (simp add: analyze_question_decision)
  show ?thesis
    unfolding direct_run [OF d] using d by simp
qed

theorem no_keyword_goes_straight_to_the_model_witness:
  "\<not> should_use_rag ''Hello, how are you?''
   \<and> \<not> should_use_web_search ''Hello, how are you?''
   \<and> \<not> should_use_arxiv ''Hello, how are you?''
   \<and> trace (route_and_respond answering [HumanMessage ''Hello, how are you?''])
       = [''analyze_question'', ''generate_response'']
   \<and> (\<exists>st'. outcome (route_and_respond answering [HumanMessage ''Hello, how are you?''])
          = Inr st'
        \<and> messages st' = [HumanMessage ''Hello, how are you?'',
                           AIMessage ''Here is what I found.''])"
proof -
  have rag: "\<not> should_use_rag ''Hello, how are you?''"
    by (simp add: should_use_rag_def rag_keywords_def str_eval)
  have web: "\<not> should_use_web_search ''Hello, how are you?''"
    by (simp add: should_use_web_search_def web_keywords_def str_eval)
  have arxiv: "\<not> should_use_arxiv ''Hello, how are you?''"
    by (simp add: should_use_arxiv_def arxiv_keywords_def str_eval)
  have newest: "first_human (rev [HumanMessage ''Hello, how are you?''])
      = Some ''Hello, how are you?''"
    by simp
  have reply: "chat_model answering (system_prompt # [HumanMessage ''Hello, how are you?''])
      = Inr (AIMessage ''Here is what I found.'')"
    by (simp add: answering_def)
  show ?thesis
    using no_keyword_goes_straight_to_the_model [OF newest rag web arxiv, of answering]
      reply rag web arxiv
    by simp
qed

text \<open>
  Claim C8. \<open>generate_response\<close> calls the chat model once, on the instruction message
  followed by the messages of the state, and hands on what the call gives, a reply or
  an exception. In a run that enters \<open>generate_response\<close> the model is called exactly
  once, on the instruction message followed by the conversation and the tool message
  if there is one, and an exception of that call is the outcome of the run.
\<close>

theorem generate_response_calls_the_model_once:
  "generate_response env st =
     ([CallModel (system_prompt # messages st)],
      case chat_model env (system_prompt # messages st) of
        Inl e \<Rightarrow> Inl e
      | Inr response \<Rightarrow> Inr (Messages [response]))
   \<and> (''generate_response'' \<in> set (trace (route_and_respond env conv)) \<longrightarrow>
        (\<exists>tool. length tool \<le> 1
           \<and> filter (\<lambda>c. \<not> is_tool_call c) (calls (route_and_respond env conv))
               = [CallModel (system_prompt # conv @ tool)]
           \<and> (\<forall>e. chat_model env (system_prompt # conv @ tool) = Inl e
                \<longrightarrow> outcome (route_and_respond env conv) = Inl e)))"
proof -
  have node: "generate_response env st =
     ([CallModel (system_prompt # messages st)],
      case chat_model env (system_prompt # messages st) of
        Inl e \<Rightarrow> Inl e
      | Inr response \<Rightarrow> Inr (Messages [response]))"
    by (simp add: generate_response_def Let_def)
  have run: "\<exists>tool. length tool \<le> 1
           \<and> filter (\<lambda>c. \<not> is_tool_call c) (calls (route_and_respond env conv))
               = [CallModel (system_prompt # conv @ tool)]
           \<and> (\<forall>e. chat_model env (system_prompt # conv @ tool) = Inl e
                \<longrightarrow> outcome (route_and_respond env conv) = Inl e)"
    if reached: "''generate_response'' \<in> set (trace (route_and_respond env conv))"
  proof (cases conv rule: decision_cases)
    case (direct q)
    show ?thesis
      by (rule exI [of _ "[]"]) (simp add: direct_run [OF direct])
  next
    case (rag q)
    show ?thesis
      unfolding rag_run [OF rag] Let_def
      by (rule exI [of _ "[SystemMessage
                (case retrieve_information env (Some q) of
                   Inr rag_result \<Rightarrow> ''RAG Tool Result: '' @ rag_result
                 | Inl e \<Rightarrow> ''RAG tool error: '' @ str_exn e)]"]) simp
  next
    case (web_search q)
    show ?thesis
      unfolding web_search_run [OF web_search] Let_def
      by (rule exI [of _ "[SystemMessage
                (case tavily_tool env (Some q) of
                   Inr search_result \<Rightarrow>
                     ''Web Search Results: '' @ join [CHR 0x0A] (map format_hit search_result)
                 | Inl e \<Rightarrow> ''Web search error: '' @ str_exn e)]"]) simp
  next
    case (arxiv q)
    show ?thesis
    proof (cases "arxiv_tool env (Some q)")
      case (Inl e)
      then show ?thesis using reached by (simp add: arxiv_run_raised [OF arxiv])
    next
      case (Inr arxiv_result)
      show ?thesis
        unfolding arxiv_run_answered [OF arxiv Inr] Let_def
        by (rule exI [of _ "[SystemMessage (''ArXiv Search Results: '' @ arxiv_result)]"]) simp
    qed
  qed
  from node run show ?thesis by blast
qed

theorem generate_response_calls_the_model_once_witness:
  "''generate_response'' \<in> set (trace (route_and_respond model_down
        [HumanMessage ''Hello, how are you?'']))
   \<and> calls (route_and_respond model_down [HumanMessage ''Hello, how are you?''])
       = [CallModel [system_prompt, HumanMessage ''Hello, how are you?'']]
   \<and> outcome (route_and_respond model_down [HumanMessage ''Hello, how are you?''])
       = Inl (Exception ''rate limit exceeded'')"
proof -
  let ?conv = "[HumanMessage ''Hello, how are you?'']"
  have d: "analyze_question (initial_state ?conv) = Decision ''direct'' ''Hello, how are you?''"
    using decision_of_newest_question [of "[]" "''Hello, how are you?''"]
    by (simp add: kw_eval str_eval)
  have tr: "''generate_response'' \<in> set (trace (route_and_respond model_down ?conv))"
    and cs: "calls (route_and_respond model_down ?conv) = [CallModel (system_prompt # ?conv)]"
    by (simp_all add: direct_run [OF d])
  have down: "chat_model model_down ms = Inl (Exception ''rate limit exceeded'')" for ms
    by (simp add: model_down_def answering_def)
  obtain tool where
    one: "filter (\<lambda>c. \<not> is_tool_call c) (calls (route_and_respond model_down ?conv))
        = [CallModel (system_prompt # ?conv @ tool)]"
    and fail: "\<forall>e. chat_model model_down (system_prompt # ?conv @ tool) = Inl e
        \<longrightarrow> outcome (route_and_respond model_down ?conv) = Inl e"
    using generate_response_calls_the_model_once [of model_down _ ?conv] tr by blast
  have "outcome (route_and_respond model_down ?conv) = Inl (Exception ''rate limit exceeded'')"
    using fail down by blast
  with tr cs show ?thesis by simp
qed

subsection \<open>A tool that raises\<close>

text \<open>
  The handlers of \<open>use_rag_tool\<close> and \<open>use_web_search_tool\<close> turn the exception
  into a system message, and the run goes on to the chat model.
\<close>

lemma rag_failure_is_reported:
  assumes "analyze_question (initial_state conv) = Decision ''rag'' q"
    and "retrieve_information env (Some q) = Inl e"
    and "chat_model env (system_prompt # conv @ [SystemMessage (''RAG tool error: '' @ str_exn e)])
      = Inr reply"
  shows "outcome (route_and_respond env conv) =
     Inr \<lparr>messages = conv @ [SystemMessage (''RAG tool error: '' @ str_exn e)] @ [reply],
          tool_choice = Present (Some ''rag''), question = Present (Some q)\<rparr>"
  using assms(2,3) by (simp add: rag_run [OF assms(1)] Let_def)

lemma web_search_failure_is_reported:
  assumes "analyze_question (initial_state conv) = Decision ''web_search'' q"
    and "tavily_tool env (Some q) = Inl e"
    and "chat_model env (system_prompt # conv @ [SystemMessage (''Web search error: '' @ str_exn e)])
      = Inr reply"
  shows "outcome (route_and_respond env conv) =
     Inr \<lparr>messages = conv @ [SystemMessage (''Web search error: '' @ str_exn e)] @ [reply],
          tool_choice = Present (Some ''web_search''), question = Present (Some q)\<rparr>"
  using assms(2,3) by (simp add: web_search_run [OF assms(1)] Let_def)

text \<open>
  Claim C1, at a question for the academic search while that tool raises. The handler
  of \<open>use_arxiv_tool\<close> reads \<open>tool_message\<close>, which was never assigned: the
  \<open>UnboundLocalError\<close> leaves the node and ends the run with no message added and no
  reply. The same failure in the retrieval tool and in the web search is reported in a
  system message, and the reply follows.
\<close>

theorem academic_search_failure_escapes_the_handler:
  "snd (use_arxiv_tool arxiv_down
          (apply_update (initial_state [HumanMessage ''Find a paper on graph theory''])
             (Decision ''arxiv'' ''Find a paper on graph theory'')))
     = Inl (UnboundLocalError ''tool_message'')
   \<and> route_and_respond arxiv_down [HumanMessage ''Find a paper on graph theory''] =
       \<lparr>trace = [''analyze_question'', ''use_arxiv''],
        calls = [CallArxiv (Some ''Find a paper on graph theory'')],
        outcome = Inl (UnboundLocalError ''tool_message'')\<rparr>
   \<and> outcome (route_and_respond rag_down [HumanMessage ''How does FAFSA work?'']) =
       Inr \<lparr>messages = [HumanMessage ''How does FAFSA work?'',
                         SystemMessage ''RAG tool error: vector store offline'',
                         AIMessage ''Here is what I found.''],
            tool_choice = Present (Some ''rag''),
            question = Present (Some ''How does FAFSA work?'')\<rparr>
   \<and> outcome (route_and_respond web_down [HumanMessage ''Any news on the election?'']) =
       Inr \<lparr>messages = [HumanMessage ''Any news on the election?'',
                         SystemMessage ''Web search error: TAVILY_API_KEY not set'',
                         AIMessage ''Here is what I found.''],
            tool_choice = Present (Some ''web_search''),
            question = Present (Some ''Any news on the election?'')\<rparr>"
proof -
  have d_arxiv: "analyze_question (initial_state [HumanMessage ''Find a paper on graph theory''])
      = Decision ''arxiv'' ''Find a paper on graph theory''"
    using decision_of_newest_question [of "[]" "''Find a paper on graph theory''"]
    by (simp add: kw_eval str_eval)
  have d_rag: "analyze_question (initial_state [HumanMessage ''How does FAFSA work?''])
      = Decision ''rag'' ''How does FAFSA work?''"
    using decision_of_newest_question [of "[]" "''How does FAFSA work?''"]
    by (simp add: kw_eval str_eval)
  have d_web: "analyze_question (initial_state [HumanMessage ''Any news on the election?''])
      = Decision ''web_search'' ''Any news on the election?''"
    using decision_of_newest_question [of "[]" "''Any news on the election?''"]
    by (simp add: kw_eval str_eval)
  have down: "arxiv_tool arxiv_down q = Inl (Exception ''connection refused'')" for q
    by (simp add: arxiv_down_def)
  have node: "snd (use_arxiv_tool arxiv_down
          (apply_update (initial_state [HumanMessage ''Find a paper on graph theory''])
             (Decision ''arxiv'' ''Find a paper on graph theory'')))
     = Inl (UnboundLocalError ''tool_message'')"
    by (simp add: use_arxiv_tool_def down Let_def)
  have arxiv: "route_and_respond arxiv_down [HumanMessage ''Find a paper on graph theory''] =
       \<lparr>trace = [''analyze_question'', ''use_arxiv''],
        calls = [CallArxiv (Some ''Find a paper on graph theory'')],
        outcome = Inl (UnboundLocalError ''tool_message'')\<rparr>"
    by (rule arxiv_run_raised [OF d_arxiv down])
  have rag: "outcome (route_and_respond rag_down [HumanMessage ''How does FAFSA work?'']) =
       Inr \<lparr>messages = [HumanMessage ''How does FAFSA work?'',
                         SystemMessage ''RAG tool error: vector store offline'',
                         AIMessage ''Here is what I found.''],
            tool_choice = Present (Some ''rag''),
            question = Present (Some ''How does FAFSA work?'')\<rparr>"
    using rag_failure_is_reported [OF d_rag, of rag_down "Exception ''vector store offline''"
        "AIMessage ''Here is what I found.''"]
    by (simp add: rag_down_def answering_def)
  have web: "outcome (route_and_respond web_down [HumanMessage ''Any news on the election?'']) =
       Inr \<lparr>messages = [HumanMessage ''Any news on the election?'',
                         SystemMessage ''Web search error: TAVILY_API_KEY not set'',
                         AIMessage ''Here is what I found.''],
            tool_choice = Present (Some ''web_search''),
            question = Present (Some ''Any news on the election?'')\<rparr>"
    using web_search_failure_is_reported [OF d_web, of web_down
        "Exception ''TAVILY_API_KEY not set''" "AIMessage ''Here is what I found.''"]
    by (simp add: web_down_def answering_def)
  from node arxiv rag web show ?thesis by blast
qed

subsection \<open>What a run returns\<close>

text \<open>
  Whenever \<open>route_and_respond\<close> returns, the messages it returns are the input, then at
  most one tool message, then the reply of the chat model to exactly these messages.
  It returns whenever the chat model and the academic search answer.
\<close>

lemma returned_conversation_extends_input:
  assumes "outcome (route_and_respond env conv) = Inr st'"
  shows "\<exists>tool reply. messages st' = conv @ tool @ [reply] \<and> length tool \<le> 1
    \<and> chat_model env (system_prompt # conv @ tool) = Inr reply"
proof (cases conv rule: decision_cases)
  case (direct q)
  then show ?thesis
    using assms by (auto simp: direct_run split: sum.splits)
next
  case (rag q)
  show ?thesis
    using assms unfolding rag_run [OF rag] Let_def
    by (auto split: sum.splits intro!: exI [of _ "[m]" for m])
next
  case (web_search q)
  show ?thesis
    using assms unfolding web_search_run [OF web_search] Let_def
    by (auto split: sum.splits intro!: exI [of _ "[m]" for m])
next
  case (arxiv q)
  show ?thesis
  proof (cases "arxiv_tool env (Some q)")
    case (Inl e)
    then show ?thesis using assms by (simp add: arxiv_run_raised [OF arxiv])
  next
    case (Inr arxiv_result)
    show ?thesis
      using assms unfolding arxiv_run_answered [OF arxiv Inr] Let_def
      by (auto split: sum.splits intro!: exI [of _ "[m]" for m])
  qed
qed

lemma run_returns_when_collaborators_answer:
  assumes model: "\<And>ms. \<exists>reply. chat_model env ms = Inr reply"
    and search: "\<And>q. \<exists>arxiv_result. arxiv_tool env q = Inr arxiv_result"
  shows "\<exists>st'. outcome (route_and_respond env conv) = Inr st'"
proof (cases conv rule: decision_cases)
  case (direct q)
  obtain reply where "chat_model env (system_prompt # conv) = Inr reply"
    using model by blast
  then show ?thesis by (simp add: direct_run [OF direct])
next
  case (rag q)
  define m where "m = SystemMessage
                (case retrieve_information env (Some q) of
                   Inr rag_result \<Rightarrow> ''RAG Tool Result: '' @ rag_result
                 | Inl e \<Rightarrow> ''RAG tool error: '' @ str_exn e)"
  obtain reply where "chat_model env (system_prompt # conv @ [m]) = Inr reply"
    using model by blast
  then show ?thesis
    unfolding rag_run [OF rag] Let_def m_def [symmetric] by simp
next
  case (web_search q)
  define m where "m = SystemMessage
                (case tavily_tool env (Some q) of
                   Inr search_result \<Rightarrow>
                     ''Web Search Results: '' @ join [CHR 0x0A] (map format_hit search_result)
                 | Inl e \<Rightarrow> ''Web search error: '' @ str_exn e)"
  obtain reply where "chat_model env (system_prompt # conv @ [m]) = Inr reply"
    using model by blast
  then show ?thesis
    unfolding web_search_run [OF web_search] Let_def m_def [symmetric] by simp
next
  case (arxiv q)
  obtain arxiv_result where res: "arxiv_tool env (Some q) = Inr arxiv_result"
    using search by blast
  obtain reply where "chat_model env
      (system_prompt # conv @ [SystemMessage (''ArXiv Search Results: '' @ arxiv_result)])
      = Inr reply"
    using model by blast
  then show ?thesis
    unfolding arxiv_run_answered [OF arxiv res] Let_def by simp
qed

text \<open>
  Claim C6, at a conversation whose newest question goes to the academic search while
  that tool raises. The chat model would answer, and still \<open>route_and_respond\<close>
  returns no conversation: the run ends with the \<open>UnboundLocalError\<close> of the handler.
\<close>

theorem academic_search_failure_returns_no_conversation:
  "chat_model arxiv_down
      (system_prompt # [HumanMessage ''Hi'', AIMessage ''Hello! How can I help?'',
         HumanMessage ''Summarise one study on sleep''])
     = Inr (AIMessage ''Here is what I found.'')
   \<and> outcome (route_and_respond arxiv_down
        [HumanMessage ''Hi'', AIMessage ''Hello! How can I help?'',
         HumanMessage ''Summarise one study on sleep''])
     = Inl (UnboundLocalError ''tool_message'')
   \<and> (\<nexists>st'. outcome (route_and_respond arxiv_down
        [HumanMessage ''Hi'', AIMessage ''Hello! How can I help?'',
         HumanMessage ''Summarise one study on sleep'']) = Inr st')"
proof -
  have d: "analyze_question (initial_state
        [HumanMessage ''Hi'', AIMessage ''Hello! How can I help?'',
         HumanMessage ''Summarise one study on sleep''])
      = Decision ''arxiv'' ''Summarise one study on sleep''"
    using decision_of_newest_question
      [of "[HumanMessage ''Hi'', AIMessage ''Hello! How can I help?'']"
          "''Summarise one study on sleep''"]
    by (simp add: kw_eval str_eval)
  have down: "arxiv_tool arxiv_down q = Inl (Exception ''connection refused'')" for q
    by (simp add: arxiv_down_def)
  have model: "chat_model arxiv_down ms = Inr (AIMessage ''Here is what I found.'')" for ms
    by (simp add: arxiv_down_def answering_def)
  have "outcome (route_and_respond arxiv_down
        [HumanMessage ''Hi'', AIMessage ''Hello! How can I help?'',
         HumanMessage ''Summarise one study on sleep''])
     = Inl (UnboundLocalError ''tool_message'')"
    by (simp add: arxiv_run_raised [OF d down])
  then show ?thesis using model by simp
qed

subsection \<open>The steps of a run\<close>

text \<open>
  A run enters at most three nodes, far below the recursion limit, and it enters
  \<open>generate_response\<close> exactly once, as its last node, unless it ended in
  \<open>use_arxiv\<close> with the \<open>UnboundLocalError\<close> of the handler.
\<close>

lemma generate_response_entered_once_unless_arxiv_raises:
  "(count_list (trace (route_and_respond env conv)) ''generate_response'' = 1
      \<and> last (trace (route_and_respond env conv)) = ''generate_response''
      \<and> length (trace (route_and_respond env conv)) \<le> 3)
   \<or> (trace (route_and_respond env conv) = [''analyze_question'', ''use_arxiv'']
      \<and> outcome (route_and_respond env conv) = Inl (UnboundLocalError ''tool_message''))"
proof (cases conv rule: decision_cases)
  case (direct q)
  then show ?thesis by (simp add: direct_run)
next
  case (rag q)
  then show ?thesis by (simp add: rag_run Let_def)
next
  case (web_search q)
  then show ?thesis by (simp add: web_search_run Let_def)
next
  case (arxiv q)
  show ?thesis
  proof (cases "arxiv_tool env (Some q)")
    case (Inl e)
    then show ?thesis by (simp add: arxiv_run_raised [OF arxiv])
  next
    case (Inr arxiv_result)
    then show ?thesis by (simp add: arxiv_run_answered [OF arxiv] Let_def)
  qed
qed

text \<open>
  Claim C9, at a question for the academic search while that tool raises. The routing
  is as the claim says (\<open>route_to_tool_total\<close>, \<open>route_to_tool_default\<close>), and it sends
  this run to \<open>use_arxiv\<close>; the run ends there and never enters \<open>generate_response\<close>.
\<close>

theorem academic_search_failure_skips_generate_response:
  "route_to_tool (apply_update (initial_state [HumanMessage ''Explain this sorting algorithm''])
      (analyze_question (initial_state [HumanMessage ''Explain this sorting algorithm''])))
     = ''use_arxiv''
   \<and> trace (route_and_respond arxiv_down [HumanMessage ''Explain this sorting algorithm''])
     = [''analyze_question'', ''use_arxiv'']
   \<and> count_list (trace (route_and_respond arxiv_down
        [HumanMessage ''Explain this sorting algorithm''])) ''generate_response'' = 0"
proof -
  have d: "analyze_question (initial_state [HumanMessage ''Explain this sorting algorithm''])
      = Decision ''arxiv'' ''Explain this sorting algorithm''"
    using decision_of_newest_question [of "[]" "''Explain this sorting algorithm''"]
    by (simp add: kw_eval str_eval)
  have down: "arxiv_tool arxiv_down q = Inl (Exception ''connection refused'')" for q
    by (simp add: arxiv_down_def)
  have route: "route_to_tool
      (apply_update (initial_state [HumanMessage ''Explain this sorting algorithm''])
        (analyze_question (initial_state [HumanMessage ''Explain this sorting algorithm''])))
     = ''use_arxiv''"
    unfolding d route_to_tool_after_decision by simp
  have tr: "trace (route_and_respond arxiv_down [HumanMessage ''Explain this sorting algorithm''])
     = [''analyze_question'', ''use_arxiv'']"
    by (simp add: arxiv_run_raised [OF d down])
  show ?thesis unfolding tr using route by simp
qed

end
